theory Spec2Isabelle
  imports Complex_Main
begin

section \<open>Floating-point cells\<close>

text \<open>
  The dashboard (\<open>app.py\<close>) computes its indicators on the \<open>Close\<close> column of a pandas
  data frame, a column of 64-bit floats. A series is modelled as a list, one cell per
  row, in date order. The \<open>Close\<close> column itself is a list of reals: every record of
  the price series has a closing price.

  Two cell types are used, following what a column can hold.
  \<^item> \<open>cell\<close>: a finite number or the missing value; \<open>None\<close> is pandas' NaN. Rolling
    and exponential means, differences and the Bollinger bands only produce such cells.
  \<^item> \<open>fval\<close>: a float with the special values of IEEE 754 (negative zero, the two
    infinities, NaN), for the arithmetic of the RSI, which divides by zero.
    \<open>Fin 0\<close> is positive zero.

  Arithmetic on finite values is exact: rounding, overflow and underflow of the
  64-bit format are not modelled.
\<close>

type_synonym cell = "real option"

datatype fval = Fin real | NegZero | PInf | NInf | NaN

definition of_cell :: "cell \<Rightarrow> fval" where
  "of_cell c = (case c of None \<Rightarrow> NaN | Some x \<Rightarrow> Fin x)"

fun sign_bit :: "fval \<Rightarrow> bool" where
  "sign_bit (Fin x) = (x < 0)"
| "sign_bit NegZero = True"
| "sign_bit PInf = False"
| "sign_bit NInf = True"
| "sign_bit NaN = False"

fun is_zero :: "fval \<Rightarrow> bool" where
  "is_zero (Fin x) = (x = 0)"
| "is_zero NegZero = True"
| "is_zero _ = False"

fun is_inf :: "fval \<Rightarrow> bool" where
  "is_inf PInf = True"
| "is_inf NInf = True"
| "is_inf _ = False"

fun magnitude :: "fval \<Rightarrow> real" where
  "magnitude (Fin x) = x"
| "magnitude _ = 0"

definition zero_of :: "bool \<Rightarrow> fval" where
  "zero_of s = (if s then NegZero else Fin 0)"

definition inf_of :: "bool \<Rightarrow> fval" where
  "inf_of s = (if s then NInf else PInf)"

text \<open>
  Negation flips the sign bit, also of a zero. A sum of opposite infinities is NaN; a
  zero sum is positive zero unless both operands are negative zero. Subtraction adds
  the negation. Division: NaN propagates, infinity by infinity and zero by zero are
  NaN, a non-zero number by a zero is an infinity, and the sign of every other result is
  the exclusive or of the operands' sign bits.
\<close>

fun fneg :: "fval \<Rightarrow> fval" where
  "fneg (Fin x) = (if x = 0 then NegZero else Fin (- x))"
| "fneg NegZero = Fin 0"
| "fneg PInf = NInf"
| "fneg NInf = PInf"
| "fneg NaN = NaN"

fun fadd :: "fval \<Rightarrow> fval \<Rightarrow> fval" where
  "fadd NaN _ = NaN"
| "fadd _ NaN = NaN"
| "fadd PInf NInf = NaN"
| "fadd NInf PInf = NaN"
| "fadd PInf _ = PInf"
| "fadd _ PInf = PInf"
| "fadd NInf _ = NInf"
| "fadd _ NInf = NInf"
| "fadd NegZero NegZero = NegZero"
| "fadd NegZero (Fin y) = Fin y"
| "fadd (Fin x) NegZero = Fin x"
| "fadd (Fin x) (Fin y) = Fin (x + y)"

definition fsub :: "fval \<Rightarrow> fval \<Rightarrow> fval" where
  "fsub a b = fadd a (fneg b)"

definition fdiv :: "fval \<Rightarrow> fval \<Rightarrow> fval" where
  "fdiv a b =
     (if a = NaN \<or> b = NaN then NaN
      else let s = (sign_bit a \<noteq> sign_bit b) in
        if is_inf a then (if is_inf b then NaN else inf_of s)
        else if is_inf b then zero_of s
        else if is_zero b then (if is_zero a then NaN else inf_of s)
        else if is_zero a then zero_of s
        else Fin (magnitude a / magnitude b))"

section \<open>Series operations\<close>

text \<open>
  Comparisons with a missing value are false; arithmetic with a missing value is
  missing.
\<close>

definition gt_cell :: "cell \<Rightarrow> cell \<Rightarrow> bool" where
  "gt_cell a b = (case (a, b) of (Some x, Some y) \<Rightarrow> y < x | _ \<Rightarrow> False)"

definition lt_cell :: "cell \<Rightarrow> cell \<Rightarrow> bool" where
  "lt_cell a b = (case (a, b) of (Some x, Some y) \<Rightarrow> x < y | _ \<Rightarrow> False)"

definition sub_cell :: "cell \<Rightarrow> cell \<Rightarrow> cell" where
  "sub_cell a b = (case (a, b) of (Some x, Some y) \<Rightarrow> Some (x - y) | _ \<Rightarrow> None)"

definition add_cell :: "cell \<Rightarrow> cell \<Rightarrow> cell" where
  "add_cell a b = (case (a, b) of (Some x, Some y) \<Rightarrow> Some (x + y) | _ \<Rightarrow> None)"

definition scale_cell :: "cell \<Rightarrow> real \<Rightarrow> cell" where
  "scale_cell a k = (case a of Some x \<Rightarrow> Some (x * k) | None \<Rightarrow> None)"

text \<open>
  \<^verbatim>\<open>series.rolling(window=period).mean()\<close> and \<^verbatim>\<open>.std()\<close>. The window at position
  \<open>i\<close> holds the cells at positions \<open>max 0 (i - period + 1)\<close> to \<open>i\<close>. With an integer
  window the minimum number of observations is the window length; missing cells are not
  observations. The mean is the sum of the observations over their number, and is
  missing when there are fewer observations than required, or none. The standard
  deviation is the sample one (one degree of freedom removed) and is also missing for a
  single observation.
\<close>

definition window_at :: "nat \<Rightarrow> nat \<Rightarrow> cell list \<Rightarrow> cell list" where
  "window_at period i xs = drop (Suc i - period) (take (Suc i) xs)"

definition observations :: "cell list \<Rightarrow> real list" where
  "observations w = concat (map (\<lambda>c. case c of None \<Rightarrow> [] | Some x \<Rightarrow> [x]) w)"

definition mean_of :: "nat \<Rightarrow> cell list \<Rightarrow> cell" where
  "mean_of minp w =
     (let obs = observations w in
      if minp \<le> length obs \<and> 0 < length obs
      then Some (sum_list obs / real (length obs)) else None)"

definition rolling_mean :: "nat \<Rightarrow> cell list \<Rightarrow> cell list" where
  "rolling_mean period xs = map (\<lambda>i. mean_of period (window_at period i xs)) [0..<length xs]"

definition std_of :: "nat \<Rightarrow> cell list \<Rightarrow> cell" where
  "std_of minp w =
     (let obs = observations w; n = length obs in
      if minp \<le> n \<and> 1 < n
      then (let m = sum_list obs / real n in
            Some (sqrt (sum_list (map (\<lambda>x. (x - m)\<^sup>2) obs) / real (n - 1))))
      else None)"

definition rolling_std :: "nat \<Rightarrow> cell list \<Rightarrow> cell list" where
  "rolling_std period xs = map (\<lambda>i. std_of period (window_at period i xs)) [0..<length xs]"

text \<open>
  \<^verbatim>\<open>series.diff(1)\<close>: each cell minus the previous one, missing at the first row.
  \<^verbatim>\<open>series.where(cond, other)\<close> keeps a cell where the condition holds and puts
  \<open>other\<close> elsewhere. \<^verbatim>\<open>series.shift(-1)\<close> moves every cell one row up and leaves the
  last row missing.
\<close>

fun diff_from :: "cell \<Rightarrow> cell list \<Rightarrow> cell list" where
  "diff_from prev [] = []"
| "diff_from prev (x # xs) = sub_cell x prev # diff_from x xs"

definition diff1 :: "cell list \<Rightarrow> cell list" where
  "diff1 xs = diff_from None xs"

definition where_cell :: "bool list \<Rightarrow> cell \<Rightarrow> cell list \<Rightarrow> cell list" where
  "where_cell cond other xs = map (\<lambda>(c, x). if c then x else other) (zip cond xs)"

definition shift_back :: "cell list \<Rightarrow> cell list" where
  "shift_back xs = (case xs of [] \<Rightarrow> [] | _ # t \<Rightarrow> t @ [None])"

text \<open>
  \<^verbatim>\<open>series.ewm(span=s, adjust=False).mean()\<close> on a series without missing cells: the
  first output is the first value, and the loop carries the last output \<open>w\<close> to the
  next row, with \<open>\<alpha> = 2 / (s + 1)\<close>.
\<close>

fun ewm_loop :: "real \<Rightarrow> real \<Rightarrow> real list \<Rightarrow> real list" where
  "ewm_loop \<alpha> w [] = []"
| "ewm_loop \<alpha> w (x # xs) = (let w' = (1 - \<alpha>) * w + \<alpha> * x in w' # ewm_loop \<alpha> w' xs)"

definition ewm_mean :: "nat \<Rightarrow> real list \<Rightarrow> cell list" where
  "ewm_mean span_n xs =
     (case xs of [] \<Rightarrow> []
      | x # rest \<Rightarrow> map Some (x # ewm_loop (2 / (real span_n + 1)) x rest))"

section \<open>Indicators\<close>

text \<open>
  \<^verbatim>\<open>
  def calculate_sma(data, period=50):
      return data['Close'].rolling(window=period).mean()

  def calculate_rsi(data, period=20):
      delta = data['Close'].diff(1)
      gain = delta.where(delta > 0, 0).rolling(window=period).mean()
      loss = -delta.where(delta < 0, 0).rolling(window=period).mean()
      rs = gain / loss
      return 100 - (100 / (1 + rs))

  def calculate_macd(data):
      ema_12 = data['Close'].ewm(span=12, adjust=False).mean()
      ema_26 = data['Close'].ewm(span=26, adjust=False).mean()
      return ema_12 - ema_26

  def calculate_bollinger_bands(data, window=20, num_std_dev=2):
      sma = data['Close'].rolling(window=window).mean()
      rolling_std = data['Close'].rolling(window=window).std()
      upper_band = sma + (rolling_std * num_std_dev)
      lower_band = sma - (rolling_std * num_std_dev)
      return upper_band, lower_band
  \<close>
  In \<open>calculate_rsi\<close> the unary minus applies to the rolling mean of the falls, so a
  mean of zero becomes negative zero. \<open>rsi_gain\<close> and \<open>rsi_loss\<close> are the series
  \<open>gain\<close> and \<open>loss\<close> of the function.
\<close>

definition calculate_sma :: "real list \<Rightarrow> nat \<Rightarrow> cell list" where
  "calculate_sma closes period = rolling_mean period (map Some closes)"

definition rsi_gain :: "real list \<Rightarrow> nat \<Rightarrow> fval list" where
  "rsi_gain closes period =
     (let delta = diff1 (map Some closes)
      in map of_cell
           (rolling_mean period
              (where_cell (map (\<lambda>d. gt_cell d (Some 0)) delta) (Some 0) delta)))"

definition rsi_loss :: "real list \<Rightarrow> nat \<Rightarrow> fval list" where
  "rsi_loss closes period =
     (let delta = diff1 (map Some closes)
      in map (fneg \<circ> of_cell)
           (rolling_mean period
              (where_cell (map (\<lambda>d. lt_cell d (Some 0)) delta) (Some 0) delta)))"

definition calculate_rsi :: "real list \<Rightarrow> nat \<Rightarrow> fval list" where
  "calculate_rsi closes period =
     (let gain = rsi_gain closes period;
          loss = rsi_loss closes period;
          rs = map2 fdiv gain loss
      in map (\<lambda>r. fsub (Fin 100) (fdiv (Fin 100) (fadd (Fin 1) r))) rs)"

definition calculate_macd :: "real list \<Rightarrow> cell list" where
  "calculate_macd closes =
     (let ema_12 = ewm_mean 12 closes; ema_26 = ewm_mean 26 closes
      in map2 sub_cell ema_12 ema_26)"

definition calculate_bollinger_bands :: "real list \<Rightarrow> nat \<Rightarrow> real \<Rightarrow> cell list \<times> cell list" where
  "calculate_bollinger_bands closes window num_std_dev =
     (let sma = rolling_mean window (map Some closes);
          rstd = rolling_std window (map Some closes);
          upper_band = map2 add_cell sma (map (\<lambda>s. scale_cell s num_std_dev) rstd);
          lower_band = map2 sub_cell sma (map (\<lambda>s. scale_cell s num_std_dev) rstd)
      in (upper_band, lower_band))"

section \<open>Fundamentals recommendation\<close>

text \<open>
  The P/E ratio of the company record is a number or the string \<open>"N/A"\<close>.
  \<^verbatim>\<open>
  if company_info['PE Ratio'] != "N/A" and company_info['PE Ratio'] < 15:
      recommendation = "Buy"
      description = "Undervalued"
  elif company_info['PE Ratio'] != "N/A" and company_info['PE Ratio'] > 25:
      recommendation = "Sell"
      description = "Overvalued"
  else:
      recommendation = "Hold"
      description = "Fairly Valued"
  \<close>
  The result is the pair of \<open>recommendation\<close> and \<open>description\<close>.
\<close>

datatype info_value = NotAvailable | Num real

definition recommendation :: "info_value \<Rightarrow> string \<times> string" where
  "recommendation pe_ratio =
     (if (case pe_ratio of NotAvailable \<Rightarrow> False | Num x \<Rightarrow> x < 15)
      then (''Buy'', ''Undervalued'')
      else if (case pe_ratio of NotAvailable \<Rightarrow> False | Num x \<Rightarrow> 25 < x)
      then (''Sell'', ''Overvalued'')
      else (''Hold'', ''Fairly Valued''))"

section \<open>Crossover and label columns\<close>

text \<open>
  \<^verbatim>\<open>
  stock_data['Crossover'] = np.where(stock_data['SMA_Short'] > stock_data['SMA_Long'], 1, 0)
  stock_data['Crossover_Signal'] = stock_data['Crossover'].diff()
  stock_data['Target'] = np.where(stock_data['Close'].shift(-1) > stock_data['Close'], 1, 0)
  \<close>
  \<open>np.where\<close> with the integers 1 and 0 gives an integer column. The difference of an
  integer column is a float column, missing at the first row.
\<close>

definition np_where :: "bool list \<Rightarrow> int list" where
  "np_where cond = map (\<lambda>c. if c then 1 else 0) cond"

definition Crossover :: "real list \<Rightarrow> nat \<Rightarrow> nat \<Rightarrow> int list" where
  "Crossover closes short_ma_days long_ma_days =
     np_where (map2 gt_cell (calculate_sma closes short_ma_days)
                            (calculate_sma closes long_ma_days))"

definition Crossover_Signal :: "real list \<Rightarrow> nat \<Rightarrow> nat \<Rightarrow> cell list" where
  "Crossover_Signal closes short_ma_days long_ma_days =
     diff1 (map (\<lambda>f. Some (real_of_int f)) (Crossover closes short_ma_days long_ma_days))"

definition target_column :: "real list \<Rightarrow> int list" where
  "target_column closes =
     np_where (map2 gt_cell (shift_back (map Some closes)) (map Some closes))"

section \<open>Feature and label pipeline\<close>

text \<open>
  \<^verbatim>\<open>
  stock_data['SMA_Short'] = calculate_sma(stock_data, short_ma_days)
  stock_data['SMA_Long'] = calculate_sma(stock_data, long_ma_days)
  stock_data['RSI'] = calculate_rsi(stock_data, 20)
  stock_data['MACD'] = calculate_macd(stock_data)
  ...
  feature_columns = ['SMA_Short', 'SMA_Long', 'RSI', 'MACD']
  stock_data = stock_data.dropna(subset=feature_columns + ['Target'])
  features = stock_data[feature_columns]
  target = stock_data['Target']
  if len(features) < 5:
      st.write("Not enough data available for prediction within the specified date range.")
  else:
      X_train, X_test, y_train, y_test = train_test_split(features, target, test_size=0.2)
  \<close>
  A row keeps its position in the price series, as the data frame keeps its date index.
  \<open>dropna\<close> drops a row when one of the five columns of the subset is missing there;
  an integer column has no missing value, and an infinity is not a missing value.
  The pipeline's effects are the calls it makes to its collaborators, in order.
\<close>

record row =
  position :: nat
  SMA_Short :: cell
  SMA_Long :: cell
  RSI :: fval
  MACD :: cell
  Target :: int

definition stock_rows :: "real list \<Rightarrow> nat \<Rightarrow> nat \<Rightarrow> row list" where
  "stock_rows closes short_ma_days long_ma_days =
     (let sma_s = calculate_sma closes short_ma_days;
          sma_l = calculate_sma closes long_ma_days;
          rsi = calculate_rsi closes 20;
          macd = calculate_macd closes;
          tgt = target_column closes
      in map (\<lambda>i. \<lparr>position = i, SMA_Short = sma_s ! i, SMA_Long = sma_l ! i,
                      RSI = rsi ! i, MACD = macd ! i, Target = tgt ! i\<rparr>)
             [0..<length closes])"

definition isna_int :: "int \<Rightarrow> bool" where
  "isna_int n = False"

definition notna_row :: "row \<Rightarrow> bool" where
  "notna_row r \<longleftrightarrow>
     SMA_Short r \<noteq> None \<and> SMA_Long r \<noteq> None \<and> RSI r \<noteq> NaN \<and> MACD r \<noteq> None
     \<and> \<not> isna_int (Target r)"

definition dropna :: "row list \<Rightarrow> row list" where
  "dropna rows = filter notna_row rows"

type_synonym feature_row = "nat \<times> cell \<times> cell \<times> fval \<times> cell"

definition features_of :: "row list \<Rightarrow> feature_row list" where
  "features_of rows = map (\<lambda>r. (position r, SMA_Short r, SMA_Long r, RSI r, MACD r)) rows"

definition target_of :: "row list \<Rightarrow> (nat \<times> int) list" where
  "target_of rows = map (\<lambda>r. (position r, Target r)) rows"

datatype call =
    St_write string
  | Train_test_split "feature_row list" "(nat \<times> int) list"
  | Train_model

text \<open>
  Modelled from the spec: the model fit that follows the split. The listing of
  \<open>main\<close> ends at the call of \<open>train_test_split\<close>; the specification has the fit
  (\<open>train_model\<close> on the training part) as the next step of the same branch.
\<close>

definition fit_after_split :: "call list" where
  "fit_after_split = [Train_model]"

definition prediction_model :: "real list \<Rightarrow> nat \<Rightarrow> nat \<Rightarrow> call list" where
  "prediction_model closes short_ma_days long_ma_days =
     (let stock_data = dropna (stock_rows closes short_ma_days long_ma_days);
          features = features_of stock_data;
          target = target_of stock_data
      in if length features < 5
         then [St_write ''Not enough data available for prediction within the specified date range.'']
         else Train_test_split features target # fit_after_split)"

section \<open>Reference definitions\<close>

text \<open>
  The exponential moving average as the specification words it: seeded by the first
  value, then \<open>\<alpha>\<close> times the new value plus \<open>1 - \<alpha>\<close> times the previous average.
\<close>

fun ema :: "real \<Rightarrow> real list \<Rightarrow> nat \<Rightarrow> real" where
  "ema \<alpha> xs 0 = xs ! 0"
| "ema \<alpha> xs (Suc i) = \<alpha> * xs ! Suc i + (1 - \<alpha>) * ema \<alpha> xs i"

text \<open>
  The gain and loss series of the RSI before the rolling mean, written position by
  position: the rise since the previous close (0 at position 0 and where the price did
  not rise), and the fall as a non-positive number (0 where the price did not fall).
  \<open>rsi_of\<close> is the last line of \<open>calculate_rsi\<close> for one position.
\<close>

definition gain_values :: "real list \<Rightarrow> real list" where
  "gain_values closes =
     map (\<lambda>j. if 0 < j \<and> closes ! (j - 1) < closes ! j then closes ! j - closes ! (j - 1) else 0)
         [0..<length closes]"

definition loss_values :: "real list \<Rightarrow> real list" where
  "loss_values closes =
     map (\<lambda>j. if 0 < j \<and> closes ! j < closes ! (j - 1) then closes ! j - closes ! (j - 1) else 0)
         [0..<length closes]"

definition rsi_of :: "fval \<Rightarrow> fval \<Rightarrow> fval" where
  "rsi_of g l = fsub (Fin 100) (fdiv (Fin 100) (fadd (Fin 1) (fdiv g l)))"

text \<open>
  A position is complete when the four feature columns have a value there; this is
  the row filter written on positions rather than on rows.
\<close>

definition complete_position :: "real list \<Rightarrow> nat \<Rightarrow> nat \<Rightarrow> nat \<Rightarrow> bool" where
  "complete_position closes short_ma_days long_ma_days i \<longleftrightarrow>
     calculate_sma closes short_ma_days ! i \<noteq> None
     \<and> calculate_sma closes long_ma_days ! i \<noteq> None
     \<and> calculate_rsi closes 20 ! i \<noteq> NaN
     \<and> calculate_macd closes ! i \<noteq> None"

text \<open>
  A row has a label when it has a next row to compare its close with; the rows with
  complete indicator data and label are the complete positions before the last one.
\<close>

definition labelled_complete_position :: "real list \<Rightarrow> nat \<Rightarrow> nat \<Rightarrow> nat \<Rightarrow> bool" where
  "labelled_complete_position closes short_ma_days long_ma_days i \<longleftrightarrow>
     complete_position closes short_ma_days long_ma_days i \<and> Suc i < length closes"

text \<open>A series the dashboard can load: 54 daily closes, 1 to 54.\<close>

definition rising_prices :: "real list" where
  "rising_prices = map real [1..<55]"

section \<open>Rolling windows\<close>

lemma observations_map_Some: "observations (map Some vs) = vs"
  by (induction vs) (simp_all add: observations_def)

lemma window_at_map: "window_at p i (map f xs) = map f (drop (Suc i - p) (take (Suc i) xs))"
  by (simp add: window_at_def take_map drop_map)

lemma length_rolling_mean: "length (rolling_mean p xs) = length xs"
  by (simp add: rolling_mean_def)

lemma rolling_mean_nth:
  assumes "i < length vs"
  shows "rolling_mean p (map Some vs) ! i =
           (if 0 < p \<and> p \<le> Suc i
            then Some (sum_list (drop (Suc i - p) (take (Suc i) vs)) / real p)
            else None)"
proof -
  have "rolling_mean p (map Some vs) ! i = mean_of p (window_at p i (map Some vs))"
    using assms by (simp add: rolling_mean_def)
  also have "\<dots> = mean_of p (map Some (drop (Suc i - p) (take (Suc i) vs)))"
    by (simp only: window_at_map)
  also have "\<dots> = (if 0 < p \<and> p \<le> Suc i
            then Some (sum_list (drop (Suc i - p) (take (Suc i) vs)) / real p)
            else None)"
    using assms by (auto simp: mean_of_def observations_map_Some Let_def min_def)
  finally show ?thesis .
qed

lemma window_values_nth:
  assumes "i < length vs" "p \<le> Suc i"
  shows "drop (Suc i - p) (take (Suc i) vs) = map ((!) vs) [Suc i - p..<Suc i]"
  using assms by (intro nth_equalityI) (auto simp del: upt_Suc)

lemma sum_list_window:
  assumes "i < length vs" "p \<le> Suc i"
  shows "sum_list (drop (Suc i - p) (take (Suc i) vs)) = (\<Sum>j = Suc i - p..i. vs ! j)"
proof -
  have "sum_list (drop (Suc i - p) (take (Suc i) vs)) = sum_list (map ((!) vs) [Suc i - p..<Suc i])"
    using assms by (simp only: window_values_nth)
  also have "\<dots> = (\<Sum>j = Suc i - p..<Suc i. vs ! j)"
    by (simp add: interv_sum_list_conv_sum_set_nat)
  also have "\<dots> = (\<Sum>j = Suc i - p..i. vs ! j)"
    by (simp add: atLeastLessThanSuc_atLeastAtMost)
  finally show ?thesis .
qed

section \<open>The simple moving average\<close>

text \<open>
  C5. For a window of \<open>p\<close> days (\<open>p\<close> positive, as the sliders guarantee) the simple
  moving average has one cell per price; the cell at position \<open>i\<close> is undefined
  (\<open>None\<close>, never a zero) while \<open>i < p - 1\<close>, and from \<open>i = p - 1\<close> on it is the
  arithmetic mean of the \<open>p\<close> closing prices ending at \<open>i\<close>.
\<close>

theorem sma_defined_from_warmup:
  assumes "0 < p" and "i < length closes"
  shows "length (calculate_sma closes p) = length closes
     \<and> (i < p - 1 \<longrightarrow> calculate_sma closes p ! i = None)
     \<and> (p - 1 \<le> i \<longrightarrow>
          calculate_sma closes p ! i = Some ((\<Sum>j = Suc i - p..i. closes ! j) / real p))"
proof -
  have len: "length (calculate_sma closes p) = length closes"
    by (simp add: calculate_sma_def length_rolling_mean)
  have early: "calculate_sma closes p ! i = None" if "i < p - 1"
    using that assms by (simp add: calculate_sma_def rolling_mean_nth)
  have late: "calculate_sma closes p ! i = Some ((\<Sum>j = Suc i - p..i. closes ! j) / real p)"
    if "p - 1 \<le> i"
  proof -
    from that assms have "p \<le> Suc i" by arith
    then show ?thesis
      using assms by (simp add: calculate_sma_def rolling_mean_nth sum_list_window)
  qed
  from len early late show ?thesis by blast
qed

theorem sma_defined_from_warmup_witness:
  "calculate_sma [1, 2, 4, 8, 16] 3 ! 1 = None
   \<and> calculate_sma [1, 2, 4, 8, 16] 3 ! 2 = Some (7 / 3)
   \<and> calculate_sma [1, 2, 4, 8, 16] 3 ! 4 = Some (28 / 3)"
proof -
  have a: "(0::nat) < 3" by simp
  have s: "{0..2} = {0, 1, 2::nat}" "{..2} = {0, 1, 2::nat}" "{2..4} = {2, 3, 4::nat}" by auto
  show ?thesis
    using sma_defined_from_warmup [OF a, of 1 "[1, 2, 4, 8, 16]"]
      sma_defined_from_warmup [OF a, of 2 "[1, 2, 4, 8, 16]"]
      sma_defined_from_warmup [OF a, of 4 "[1, 2, 4, 8, 16]"]
    by (simp add: s)
qed

section \<open>The fundamentals recommendation\<close>

text \<open>
  C8. The recommendation is a total function of the P/E value: a number below 15 gives
  Buy / Undervalued, a number above 25 gives Sell / Overvalued, and everything else
  (a number from 15 to 25, or the ``N/A'' sentinel) gives Hold / Fairly Valued.
\<close>

theorem recommendation_rule:
  "(x < 15 \<longrightarrow> recommendation (Num x) = (''Buy'', ''Undervalued''))
   \<and> (25 < y \<longrightarrow> recommendation (Num y) = (''Sell'', ''Overvalued''))
   \<and> (15 \<le> z \<and> z \<le> 25 \<longrightarrow> recommendation (Num z) = (''Hold'', ''Fairly Valued''))
   \<and> recommendation NotAvailable = (''Hold'', ''Fairly Valued'')"
  by (simp add: recommendation_def)

theorem recommendation_rule_witness:
  "recommendation (Num 10) = (''Buy'', ''Undervalued'')
   \<and> recommendation (Num 30) = (''Sell'', ''Overvalued'')
   \<and> recommendation (Num 20) = (''Hold'', ''Fairly Valued'')
   \<and> recommendation NotAvailable = (''Hold'', ''Fairly Valued'')"
  using recommendation_rule [of 10 30 20] by simp

section \<open>Exponential moving averages and MACD\<close>

lemma length_ewm_loop: "length (ewm_loop \<alpha> w xs) = length xs"
  by (induction xs arbitrary: w) (simp_all add: Let_def)

lemma ewm_loop_snoc:
  "ewm_loop \<alpha> w (xs @ [y]) =
     ewm_loop \<alpha> w xs @ [(1 - \<alpha>) * last (w # ewm_loop \<alpha> w xs) + \<alpha> * y]"
  by (induction xs arbitrary: w) (simp_all add: Let_def)

lemma ema_prefix: "i < length xs \<Longrightarrow> ema \<alpha> (xs @ ys) i = ema \<alpha> xs i"
  by (induction i) (simp_all add: nth_append)

lemma ewm_loop_ema:
  "i < Suc (length rest) \<Longrightarrow> (x # ewm_loop \<alpha> x rest) ! i = ema \<alpha> (x # rest) i"
proof (induction rest arbitrary: i rule: rev_induct)
  case Nil
  then show ?case by simp
next
  case (snoc y r)
  show ?case
  proof (cases "i < Suc (length r)")
    case True
    have "x # ewm_loop \<alpha> x (r @ [y]) =
            (x # ewm_loop \<alpha> x r) @ [(1 - \<alpha>) * last (x # ewm_loop \<alpha> x r) + \<alpha> * y]"
      by (simp only: ewm_loop_snoc append_Cons)
    then have "(x # ewm_loop \<alpha> x (r @ [y])) ! i = (x # ewm_loop \<alpha> x r) ! i"
      using True by (simp only: nth_append length_Cons length_ewm_loop if_True)
    also have "\<dots> = ema \<alpha> (x # r) i"
      using True by (rule snoc.IH)
    also have "\<dots> = ema \<alpha> ((x # r) @ [y]) i"
      using True by (intro ema_prefix [symmetric]) simp
    finally show ?thesis by simp
  next
    case False
    with snoc.prems have i: "i = Suc (length r)" by simp
    have lst: "last (x # ewm_loop \<alpha> x r) = (x # ewm_loop \<alpha> x r) ! length r"
      using last_conv_nth [of "x # ewm_loop \<alpha> x r"]
      by (simp only: length_Cons length_ewm_loop diff_Suc_1 list.distinct not_False_eq_True)
    have prev: "(x # ewm_loop \<alpha> x r) ! length r = ema \<alpha> (x # r) (length r)"
      by (rule snoc.IH) simp
    have pre: "ema \<alpha> ((x # r) @ [y]) (length r) = ema \<alpha> (x # r) (length r)"
      by (rule ema_prefix) simp
    have "x # ewm_loop \<alpha> x (r @ [y]) =
            (x # ewm_loop \<alpha> x r) @ [(1 - \<alpha>) * last (x # ewm_loop \<alpha> x r) + \<alpha> * y]"
      by (simp only: ewm_loop_snoc append_Cons)
    moreover have "((x # ewm_loop \<alpha> x r) @ [(1 - \<alpha>) * last (x # ewm_loop \<alpha> x r) + \<alpha> * y])
                     ! length (x # ewm_loop \<alpha> x r) =
                   (1 - \<alpha>) * last (x # ewm_loop \<alpha> x r) + \<alpha> * y"
      by (rule nth_append_length)
    moreover have "length (x # ewm_loop \<alpha> x r) = i"
      unfolding i by (simp add: length_ewm_loop)
    ultimately have "(x # ewm_loop \<alpha> x (r @ [y])) ! i =
                 (1 - \<alpha>) * last (x # ewm_loop \<alpha> x r) + \<alpha> * y"
      by (simp only:)
    then have "(x # ewm_loop \<alpha> x (r @ [y])) ! i = (1 - \<alpha>) * ema \<alpha> (x # r) (length r) + \<alpha> * y"
      using lst prev by simp
    moreover have "ema \<alpha> (x # r @ [y]) i = \<alpha> * y + (1 - \<alpha>) * ema \<alpha> (x # r) (length r)"
      unfolding i using pre by (simp add: nth_append)
    ultimately show ?thesis by simp
  qed
qed

lemma length_ewm_mean: "length (ewm_mean s xs) = length xs"
  by (cases xs) (simp_all add: ewm_mean_def length_ewm_loop)

lemma ewm_mean_nth:
  "i < length xs \<Longrightarrow> ewm_mean s xs ! i = Some (ema (2 / (real s + 1)) xs i)"
proof (cases xs)
  case Nil
  assume "i < length xs"
  with Nil show ?thesis by simp
next
  case (Cons x rest)
  assume "i < length xs"
  with Cons have "i < Suc (length rest)" by simp
  then have "(x # ewm_loop (2 / (real s + 1)) x rest) ! i = ema (2 / (real s + 1)) (x # rest) i"
    by (rule ewm_loop_ema)
  moreover have "map Some (x # ewm_loop (2 / (real s + 1)) x rest) ! i =
      Some ((x # ewm_loop (2 / (real s + 1)) x rest) ! i)"
    using \<open>i < Suc (length rest)\<close> by (intro nth_map) (simp add: length_ewm_loop)
  moreover have "ewm_mean s xs = map Some (x # ewm_loop (2 / (real s + 1)) x rest)"
    using Cons by (simp add: ewm_mean_def)
  ultimately show ?thesis
    using Cons by simp
qed

text \<open>
  C3. MACD has one cell per price, defined at every position including the first, and
  the cell at position \<open>i\<close> is the recursive exponential moving average with
  \<open>\<alpha> = 2/13\<close> (span 12) minus the one with \<open>\<alpha> = 2/27\<close> (span 26), both seeded by
  the first closing price.
\<close>

theorem macd_is_ema12_minus_ema26:
  assumes "i < length closes"
  shows "length (calculate_macd closes) = length closes
     \<and> calculate_macd closes ! i = Some (ema (2 / 13) closes i - ema (2 / 27) closes i)"
  using assms
  by (simp add: calculate_macd_def Let_def length_ewm_mean ewm_mean_nth sub_cell_def)

theorem macd_is_ema12_minus_ema26_witness:
  "calculate_macd [1, 2, 3] ! 0 = Some 0
   \<and> calculate_macd [1, 2, 3] ! 1 = Some (28 / 351)"
proof -
  have a: "0 < length [1, 2, 3 :: real]" "1 < length [1, 2, 3 :: real]" by simp_all
  show ?thesis
    using macd_is_ema12_minus_ema26 [OF a(1)] macd_is_ema12_minus_ema26 [OF a(2)]
    by simp
qed

section \<open>The crossover flag and signal\<close>

lemma length_diff_from: "length (diff_from prev xs) = length xs"
  by (induction xs arbitrary: prev) simp_all

lemma diff_from_nth:
  "i < length xs \<Longrightarrow>
     diff_from prev xs ! i = sub_cell (xs ! i) (if i = 0 then prev else xs ! (i - 1))"
proof (induction xs arbitrary: prev i)
  case Nil
  then show ?case by simp
next
  case (Cons x xs)
  show ?case
  proof (cases i)
    case 0
    then show ?thesis by simp
  next
    case (Suc k)
    with Cons.prems have "k < length xs" by simp
    then have "diff_from x xs ! k = sub_cell (xs ! k) (if k = 0 then x else xs ! (k - 1))"
      by (rule Cons.IH)
    with Suc show ?thesis by (cases k) simp_all
  qed
qed

lemma length_diff1: "length (diff1 xs) = length xs"
  by (simp add: diff1_def length_diff_from)

lemma diff1_nth:
  "i < length xs \<Longrightarrow> diff1 xs ! i = (if i = 0 then None else sub_cell (xs ! i) (xs ! (i - 1)))"
  by (simp add: diff1_def diff_from_nth sub_cell_def split: option.splits)

lemma length_calculate_sma: "length (calculate_sma closes p) = length closes"
  by (simp add: calculate_sma_def length_rolling_mean)

lemma length_Crossover: "length (Crossover closes s l) = length closes"
  by (simp add: Crossover_def np_where_def length_calculate_sma)

lemma Crossover_nth:
  "i < length closes \<Longrightarrow>
     Crossover closes s l ! i =
       (if gt_cell (calculate_sma closes s ! i) (calculate_sma closes l ! i) then 1 else 0)"
  by (simp add: Crossover_def np_where_def length_calculate_sma)

lemma length_Crossover_Signal: "length (Crossover_Signal closes s l) = length closes"
  by (simp add: Crossover_Signal_def length_diff1 length_Crossover)

lemma Crossover_Signal_nth:
  assumes "i < length closes"
  shows "Crossover_Signal closes s l ! i =
           (if i = 0 then None
            else Some (real_of_int (Crossover closes s l ! i)
                       - real_of_int (Crossover closes s l ! (i - 1))))"
proof -
  have "i - 1 < length (Crossover closes s l)" "i < length (Crossover closes s l)"
    using assms by (simp_all add: length_Crossover)
  then show ?thesis
    by (simp add: Crossover_Signal_def diff1_nth sub_cell_def)
qed

lemma Crossover_binary:
  "i < length closes \<Longrightarrow> Crossover closes s l ! i = 0 \<or> Crossover closes s l ! i = 1"
  by (simp add: Crossover_nth)

text \<open>
  C6. The crossover signal has one cell per price and is undefined at position 0; at
  every later position it is \<open>+1\<close> exactly when the flag goes from 0 to 1, \<open>-1\<close>
  exactly when it goes from 1 to 0, and 0 exactly when the flag keeps its value, and it
  takes no other value.
\<close>

theorem crossover_signal_marks_transitions:
  assumes "i < length closes"
  shows "length (Crossover_Signal closes s l) = length closes
     \<and> Crossover_Signal closes s l ! 0 = None
     \<and> (0 < i \<longrightarrow>
          (Crossover_Signal closes s l ! i = Some 1
             \<longleftrightarrow> Crossover closes s l ! (i - 1) = 0 \<and> Crossover closes s l ! i = 1)
        \<and> (Crossover_Signal closes s l ! i = Some (- 1)
             \<longleftrightarrow> Crossover closes s l ! (i - 1) = 1 \<and> Crossover closes s l ! i = 0)
        \<and> (Crossover_Signal closes s l ! i = Some 0
             \<longleftrightarrow> Crossover closes s l ! (i - 1) = Crossover closes s l ! i)
        \<and> Crossover_Signal closes s l ! i \<in> {Some 1, Some (- 1), Some 0})"
proof -
  have len: "length (Crossover_Signal closes s l) = length closes"
    by (rule length_Crossover_Signal)
  have "0 < length closes" using assms by (cases closes) simp_all
  then have first: "Crossover_Signal closes s l ! 0 = None"
    by (simp add: Crossover_Signal_nth)
  have rest: "(Crossover_Signal closes s l ! i = Some 1
             \<longleftrightarrow> Crossover closes s l ! (i - 1) = 0 \<and> Crossover closes s l ! i = 1)
        \<and> (Crossover_Signal closes s l ! i = Some (- 1)
             \<longleftrightarrow> Crossover closes s l ! (i - 1) = 1 \<and> Crossover closes s l ! i = 0)
        \<and> (Crossover_Signal closes s l ! i = Some 0
             \<longleftrightarrow> Crossover closes s l ! (i - 1) = Crossover closes s l ! i)
        \<and> Crossover_Signal closes s l ! i \<in> {Some 1, Some (- 1), Some 0}" if "0 < i"
  proof -
    from that assms have "i - 1 < length closes" by simp
    then have a: "Crossover closes s l ! (i - 1) = 0 \<or> Crossover closes s l ! (i - 1) = 1"
      by (rule Crossover_binary)
    have b: "Crossover closes s l ! i = 0 \<or> Crossover closes s l ! i = 1"
      using assms by (rule Crossover_binary)
    have c: "Crossover_Signal closes s l ! i =
               Some (real_of_int (Crossover closes s l ! i)
                     - real_of_int (Crossover closes s l ! (i - 1)))"
      using that assms by (simp add: Crossover_Signal_nth)
    from a b show ?thesis unfolding c by auto
  qed
  from len first rest show ?thesis by blast
qed

theorem crossover_signal_marks_transitions_witness:
  "Crossover [1, 2, 3, 1, 1, 5] 2 3 = [0, 0, 1, 0, 0, 1]
   \<and> Crossover_Signal [1, 2, 3, 1, 1, 5] 2 3 ! 0 = None
   \<and> Crossover_Signal [1, 2, 3, 1, 1, 5] 2 3 ! 1 = Some 0
   \<and> Crossover_Signal [1, 2, 3, 1, 1, 5] 2 3 ! 2 = Some 1
   \<and> Crossover_Signal [1, 2, 3, 1, 1, 5] 2 3 ! 3 = Some (- 1)"
proof -
  have f: "Crossover [1, 2, 3, 1, 1, 5] 2 3 = [0, 0, 1, 0, 0, 1]"
    by code_simp
  have a: "1 < length [1, 2, 3, 1, 1, 5 :: real]" "2 < length [1, 2, 3, 1, 1, 5 :: real]"
    "3 < length [1, 2, 3, 1, 1, 5 :: real]" by simp_all
  show ?thesis
    using crossover_signal_marks_transitions [OF a(1), of 2 3]
      crossover_signal_marks_transitions [OF a(2), of 2 3]
      crossover_signal_marks_transitions [OF a(3), of 2 3]
    by (simp add: f)
qed

lemma Crossover_warmup:
  assumes "i < length closes"
    and "calculate_sma closes s ! i = None \<or> calculate_sma closes l ! i = None"
  shows "Crossover closes s l ! i = 0"
  using assms by (auto simp: Crossover_nth gt_cell_def split: option.splits)

lemma first_defined_position:
  assumes "0 < s" and "0 < l" and "1 < max s l" and "max s l \<le> length closes"
  shows "(\<forall>j < max s l - 1.
            calculate_sma closes s ! j = None \<or> calculate_sma closes l ! j = None)
     \<and> calculate_sma closes s ! (max s l - 1) \<noteq> None
     \<and> calculate_sma closes l ! (max s l - 1) \<noteq> None
     \<and> Crossover closes s l ! (max s l - 2) = 0
     \<and> Crossover_Signal closes s l ! (max s l - 1)
           = Some (real_of_int (Crossover closes s l ! (max s l - 1)) - 0)"
proof -
  let ?k = "max s l - 1"
  have k: "?k < length closes" "0 < ?k" "?k - 1 < length closes" "?k - 1 = max s l - 2"
    using assms by arith+
  have undefined_before:
    "calculate_sma closes s ! j = None \<or> calculate_sma closes l ! j = None" if "j < ?k" for j
  proof -
    from that k have j: "j < length closes" by simp
    from that have "j < s - 1 \<or> j < l - 1" by (auto simp: max_def split: if_splits)
    then show ?thesis
      using j by (auto simp: calculate_sma_def rolling_mean_nth)
  qed
  have defined_s: "calculate_sma closes s ! ?k \<noteq> None"
    using assms k by (simp add: calculate_sma_def rolling_mean_nth)
  have defined_l: "calculate_sma closes l ! ?k \<noteq> None"
    using assms k by (simp add: calculate_sma_def rolling_mean_nth)
  have "calculate_sma closes s ! (?k - 1) = None \<or> calculate_sma closes l ! (?k - 1) = None"
    using k by (intro undefined_before) arith
  with k(3) have prev: "Crossover closes s l ! (?k - 1) = 0"
    by (rule Crossover_warmup)
  have "?k \<noteq> 0"
    using k(2) by (rule gr_implies_not_zero)
  moreover have "Crossover_Signal closes s l ! ?k =
          (if ?k = 0 then None
           else Some (real_of_int (Crossover closes s l ! ?k)
                - real_of_int (Crossover closes s l ! (?k - 1))))"
    using k(1) by (rule Crossover_Signal_nth)
  ultimately have "Crossover_Signal closes s l ! ?k =
          Some (real_of_int (Crossover closes s l ! ?k)
                - real_of_int (Crossover closes s l ! (?k - 1)))"
    by (simp only: if_False)
  with prev have sig: "Crossover_Signal closes s l ! ?k
           = Some (real_of_int (Crossover closes s l ! ?k) - 0)"
    by simp
  from undefined_before defined_s defined_l prev sig k(4) show ?thesis
    by (simp only:) blast
qed

text \<open>
  C9. The crossover flag is 0 or 1 at every position and is 0 wherever the short or the
  long moving average is undefined, since comparing an undefined cell is false. So at
  the first position where both averages are defined, \<open>max s l - 1\<close> (a position with a
  predecessor, the windows being at least 10 and 50 days), the signal is the flag there
  minus a flag of 0, not an undefined cell.
\<close>

theorem crossover_flag_total:
  "(\<forall>i < length closes. Crossover closes s l ! i = 0 \<or> Crossover closes s l ! i = 1)
   \<and> (\<forall>i < length closes.
          calculate_sma closes s ! i = None \<or> calculate_sma closes l ! i = None
          \<longrightarrow> Crossover closes s l ! i = 0)
   \<and> (0 < s \<and> 0 < l \<and> 1 < max s l \<and> max s l \<le> length closes \<longrightarrow>
        (\<forall>j < max s l - 1.
            calculate_sma closes s ! j = None \<or> calculate_sma closes l ! j = None)
        \<and> calculate_sma closes s ! (max s l - 1) \<noteq> None
        \<and> calculate_sma closes l ! (max s l - 1) \<noteq> None
        \<and> Crossover closes s l ! (max s l - 2) = 0
        \<and> Crossover_Signal closes s l ! (max s l - 1)
              = Some (real_of_int (Crossover closes s l ! (max s l - 1)) - 0))"
proof -
  have binary: "\<forall>i < length closes. Crossover closes s l ! i = 0 \<or> Crossover closes s l ! i = 1"
    by (simp add: Crossover_binary)
  have warm: "\<forall>i < length closes.
          calculate_sma closes s ! i = None \<or> calculate_sma closes l ! i = None
          \<longrightarrow> Crossover closes s l ! i = 0"
    using Crossover_warmup by blast
  have first: "0 < s \<and> 0 < l \<and> 1 < max s l \<and> max s l \<le> length closes \<longrightarrow>
        (\<forall>j < max s l - 1.
            calculate_sma closes s ! j = None \<or> calculate_sma closes l ! j = None)
        \<and> calculate_sma closes s ! (max s l - 1) \<noteq> None
        \<and> calculate_sma closes l ! (max s l - 1) \<noteq> None
        \<and> Crossover closes s l ! (max s l - 2) = 0
        \<and> Crossover_Signal closes s l ! (max s l - 1)
              = Some (real_of_int (Crossover closes s l ! (max s l - 1)) - 0)"
  proof
    assume "0 < s \<and> 0 < l \<and> 1 < max s l \<and> max s l \<le> length closes"
    then have a: "0 < s" "0 < l" "1 < max s l" "max s l \<le> length closes"
      by blast+
    show "(\<forall>j < max s l - 1.
            calculate_sma closes s ! j = None \<or> calculate_sma closes l ! j = None)
        \<and> calculate_sma closes s ! (max s l - 1) \<noteq> None
        \<and> calculate_sma closes l ! (max s l - 1) \<noteq> None
        \<and> Crossover closes s l ! (max s l - 2) = 0
        \<and> Crossover_Signal closes s l ! (max s l - 1)
              = Some (real_of_int (Crossover closes s l ! (max s l - 1)) - 0)"
      using a by (rule first_defined_position)
  qed
  from binary warm first show ?thesis by (intro conjI)
qed

theorem crossover_flag_total_witness:
  "Crossover [1, 2, 3, 1, 1, 5] 2 3 = [0, 0, 1, 0, 0, 1]
   \<and> calculate_sma [1, 2, 3, 1, 1, 5] 3 ! 0 = None
   \<and> Crossover_Signal [1, 2, 3, 1, 1, 5] 2 3 ! 2 = Some 1"
proof -
  have f: "Crossover [1, 2, 3, 1, 1, 5] 2 3 = [0, 0, 1, 0, 0, 1]"
    by code_simp
  have g: "calculate_sma [1, 2, 3, 1, 1, 5] 3 ! 0 = None"
    by code_simp
  show ?thesis
    using crossover_flag_total [of "[1, 2, 3, 1, 1, 5]" 2 3] by (simp add: f g)
qed

section \<open>The relative strength index\<close>

lemma length_where_cell: "length (where_cell cond other xs) = min (length cond) (length xs)"
  by (simp add: where_cell_def)

lemma where_cell_nth:
  "i < length cond \<Longrightarrow> i < length xs \<Longrightarrow>
     where_cell cond other xs ! i = (if cond ! i then xs ! i else other)"
  by (simp add: where_cell_def)

lemma delta_nth:
  "j < length closes \<Longrightarrow>
     diff1 (map Some closes) ! j = (if j = 0 then None else Some (closes ! j - closes ! (j - 1)))"
  by (simp add: diff1_nth sub_cell_def)

lemma where_gain:
  "where_cell (map (\<lambda>d. gt_cell d (Some 0)) (diff1 (map Some closes))) (Some 0)
     (diff1 (map Some closes)) = map Some (gain_values closes)"
proof (rule nth_equalityI)
  show "length (where_cell (map (\<lambda>d. gt_cell d (Some 0)) (diff1 (map Some closes))) (Some 0)
     (diff1 (map Some closes))) = length (map Some (gain_values closes))"
    by (simp add: length_where_cell length_diff1 gain_values_def)
next
  fix j
  assume "j < length (where_cell (map (\<lambda>d. gt_cell d (Some 0)) (diff1 (map Some closes)))
     (Some 0) (diff1 (map Some closes)))"
  then have j: "j < length closes"
    by (simp add: length_where_cell length_diff1)
  then show "where_cell (map (\<lambda>d. gt_cell d (Some 0)) (diff1 (map Some closes))) (Some 0)
     (diff1 (map Some closes)) ! j = map Some (gain_values closes) ! j"
    by (simp add: where_cell_nth length_diff1 delta_nth gain_values_def gt_cell_def)
qed

lemma where_loss:
  "where_cell (map (\<lambda>d. lt_cell d (Some 0)) (diff1 (map Some closes))) (Some 0)
     (diff1 (map Some closes)) = map Some (loss_values closes)"
proof (rule nth_equalityI)
  show "length (where_cell (map (\<lambda>d. lt_cell d (Some 0)) (diff1 (map Some closes))) (Some 0)
     (diff1 (map Some closes))) = length (map Some (loss_values closes))"
    by (simp add: length_where_cell length_diff1 loss_values_def)
next
  fix j
  assume "j < length (where_cell (map (\<lambda>d. lt_cell d (Some 0)) (diff1 (map Some closes)))
     (Some 0) (diff1 (map Some closes)))"
  then have j: "j < length closes"
    by (simp add: length_where_cell length_diff1)
  then show "where_cell (map (\<lambda>d. lt_cell d (Some 0)) (diff1 (map Some closes))) (Some 0)
     (diff1 (map Some closes)) ! j = map Some (loss_values closes) ! j"
    by (simp add: where_cell_nth length_diff1 delta_nth loss_values_def lt_cell_def)
qed

lemma length_gain_values: "length (gain_values closes) = length closes"
  by (simp add: gain_values_def)

lemma length_loss_values: "length (loss_values closes) = length closes"
  by (simp add: loss_values_def)

lemma length_rsi_gain: "length (rsi_gain closes p) = length closes"
  by (simp add: rsi_gain_def Let_def where_gain length_rolling_mean length_gain_values)

lemma length_rsi_loss: "length (rsi_loss closes p) = length closes"
  by (simp add: rsi_loss_def Let_def where_loss length_rolling_mean length_loss_values)

lemma rsi_gain_nth:
  assumes "i < length closes"
  shows "rsi_gain closes p ! i =
           (if 0 < p \<and> p \<le> Suc i
            then Fin ((\<Sum>j = Suc i - p..i. gain_values closes ! j) / real p) else NaN)"
proof -
  have i: "i < length (gain_values closes)"
    using assms by (simp add: length_gain_values)
  have "rsi_gain closes p ! i = of_cell (rolling_mean p (map Some (gain_values closes)) ! i)"
    using i by (simp add: rsi_gain_def Let_def where_gain length_rolling_mean)
  then show ?thesis
    using i by (simp add: rolling_mean_nth sum_list_window of_cell_def)
qed

lemma rsi_loss_nth:
  assumes "i < length closes"
  shows "rsi_loss closes p ! i =
           (if 0 < p \<and> p \<le> Suc i
            then fneg (Fin ((\<Sum>j = Suc i - p..i. loss_values closes ! j) / real p)) else NaN)"
proof -
  have i: "i < length (loss_values closes)"
    using assms by (simp add: length_loss_values)
  have "rsi_loss closes p ! i = fneg (of_cell (rolling_mean p (map Some (loss_values closes)) ! i))"
    using i by (simp add: rsi_loss_def Let_def where_loss length_rolling_mean)
  then show ?thesis
    using i by (simp add: rolling_mean_nth sum_list_window of_cell_def)
qed

lemma calculate_rsi_nth:
  assumes "i < length closes"
  shows "calculate_rsi closes p ! i = rsi_of (rsi_gain closes p ! i) (rsi_loss closes p ! i)"
  using assms
  by (simp add: calculate_rsi_def Let_def rsi_of_def length_rsi_gain length_rsi_loss)

lemma length_calculate_rsi: "length (calculate_rsi closes p) = length closes"
  by (simp add: calculate_rsi_def Let_def length_rsi_gain length_rsi_loss)

lemma rsi_of_NaN: "rsi_of NaN NaN = NaN"
  by (simp add: rsi_of_def fdiv_def fsub_def)

lemma rsi_of_zero_zero: "rsi_of (Fin 0) NegZero = NaN"
  by (simp add: rsi_of_def fdiv_def fsub_def)

lemma rsi_of_saturate: "0 < g \<Longrightarrow> rsi_of (Fin g) NegZero = Fin 100"
  by (simp add: rsi_of_def fdiv_def fsub_def inf_of_def zero_of_def)

lemma rsi_of_regular:
  assumes "0 \<le> g" and "0 < l"
  shows "rsi_of (Fin g) (Fin l) = Fin (100 - 100 / (1 + g / l))"
proof (cases "g = 0")
  case True
  then show ?thesis
    using assms by (simp add: rsi_of_def fdiv_def fsub_def zero_of_def)
next
  case False
  with assms have "0 < g / l" by simp
  then have "1 + g / l \<noteq> 0" "\<not> 1 + g / l < 0" "100 / (1 + g / l) \<noteq> 0" by simp_all
  with False assms show ?thesis
    by (simp add: rsi_of_def fdiv_def fsub_def zero_of_def)
qed


lemma gain_values_nonneg: "j < length closes \<Longrightarrow> 0 \<le> gain_values closes ! j"
  by (simp add: gain_values_def)

lemma loss_values_nonpos: "j < length closes \<Longrightarrow> loss_values closes ! j \<le> 0"
  by (simp add: loss_values_def)

lemma gain_sum_nonneg:
  "i < length closes \<Longrightarrow> 0 \<le> (\<Sum>j = Suc i - p..i. gain_values closes ! j)"
  by (intro sum_nonneg gain_values_nonneg) simp

lemma loss_sum_nonpos:
  "i < length closes \<Longrightarrow> (\<Sum>j = Suc i - p..i. loss_values closes ! j) \<le> 0"
  by (intro sum_nonpos loss_values_nonpos) simp

lemma gain_value_change:
  "j < length closes \<Longrightarrow> gain_values closes ! j \<noteq> 0 \<Longrightarrow>
     0 < j \<and> closes ! j \<noteq> closes ! (j - 1)"
  by (auto simp: gain_values_def split: if_splits)

lemma loss_value_change:
  "j < length closes \<Longrightarrow> loss_values closes ! j \<noteq> 0 \<Longrightarrow>
     0 < j \<and> closes ! j \<noteq> closes ! (j - 1)"
  by (auto simp: loss_values_def split: if_splits)

text \<open>The three shapes of a position: outside the warm-up the gain mean is a
  non-negative number and the loss is negative zero or a positive number.\<close>

lemma rsi_position_cases:
  assumes "i < length closes"
  obtains (warmup) "rsi_gain closes p ! i = NaN" "rsi_loss closes p ! i = NaN"
    "calculate_rsi closes p ! i = NaN"
  | (no_loss) g where "0 < p" "p \<le> Suc i" "0 \<le> g"
      "g = (\<Sum>j = Suc i - p..i. gain_values closes ! j) / real p"
      "(\<Sum>j = Suc i - p..i. loss_values closes ! j) = 0"
      "rsi_gain closes p ! i = Fin g" "rsi_loss closes p ! i = NegZero"
      "calculate_rsi closes p ! i = (if g = 0 then NaN else Fin 100)"
  | (regular) g l where "0 < p" "p \<le> Suc i" "0 \<le> g" "0 < l"
      "(\<Sum>j = Suc i - p..i. loss_values closes ! j) \<noteq> 0"
      "rsi_gain closes p ! i = Fin g" "rsi_loss closes p ! i = Fin l"
      "calculate_rsi closes p ! i = Fin (100 - 100 / (1 + g / l))"
proof (cases "0 < p \<and> p \<le> Suc i")
  case False
  then have "rsi_gain closes p ! i = NaN" "rsi_loss closes p ! i = NaN"
    using assms by (simp_all add: rsi_gain_nth rsi_loss_nth)
  moreover from this have "calculate_rsi closes p ! i = NaN"
    using assms by (simp add: calculate_rsi_nth rsi_of_NaN)
  ultimately show ?thesis by (rule warmup)
next
  case True
  define g where "g = (\<Sum>j = Suc i - p..i. gain_values closes ! j) / real p"
  define m where "m = (\<Sum>j = Suc i - p..i. loss_values closes ! j) / real p"
  have g0: "0 \<le> g"
    unfolding g_def using assms True by (simp add: gain_sum_nonneg)
  have m0: "m \<le> 0"
    unfolding m_def using assms True by (simp add: loss_sum_nonpos divide_le_0_iff)
  have gain: "rsi_gain closes p ! i = Fin g"
    using assms True by (simp add: rsi_gain_nth g_def)
  have loss: "rsi_loss closes p ! i = fneg (Fin m)"
    using assms True by (simp add: rsi_loss_nth m_def)
  show ?thesis
  proof (cases "m = 0")
    case True
    with \<open>0 < p \<and> p \<le> Suc i\<close>
    have s0: "(\<Sum>j = Suc i - p..i. loss_values closes ! j) = 0"
      by (simp add: m_def)
    have l: "rsi_loss closes p ! i = NegZero"
      using loss True by simp
    have "calculate_rsi closes p ! i = (if g = 0 then NaN else Fin 100)"
      using assms g0 gain l
      by (simp add: calculate_rsi_nth rsi_of_zero_zero rsi_of_saturate)
    with \<open>0 < p \<and> p \<le> Suc i\<close> g0 s0 gain l show ?thesis
      by (intro no_loss [of g]) (simp_all add: g_def)
  next
    case False
    with m0 have pos: "0 < - m" by simp
    from False \<open>0 < p \<and> p \<le> Suc i\<close>
    have s0: "(\<Sum>j = Suc i - p..i. loss_values closes ! j) \<noteq> 0"
      by (auto simp: m_def)
    have l: "rsi_loss closes p ! i = Fin (- m)"
      using loss False by simp
    have "calculate_rsi closes p ! i = Fin (100 - 100 / (1 + g / (- m)))"
      using assms g0 pos gain l
      by (simp only: calculate_rsi_nth rsi_of_regular)
    with \<open>0 < p \<and> p \<le> Suc i\<close> g0 pos s0 gain l show ?thesis
      by (intro regular [of g "- m"]) simp_all
  qed
qed

lemma rsi_regular_bounds:
  assumes "0 \<le> g" and "0 < (l::real)"
  shows "0 \<le> 100 - 100 / (1 + g / l)" and "100 - 100 / (1 + g / l) \<le> 100"
proof -
  from assms have "1 \<le> 1 + g / l" by simp
  then have "100 / (1 + g / l) \<le> 100 / 1"
    by (intro divide_left_mono) simp_all
  then show "0 \<le> 100 - 100 / (1 + g / l)" by simp
  from \<open>1 \<le> 1 + g / l\<close> have "0 \<le> 100 / (1 + g / l)" by simp
  then show "100 - 100 / (1 + g / l) \<le> 100" by simp
qed

text \<open>
  C2. Wherever the RSI is defined (not NaN) it is a finite number from 0 to 100; and
  wherever the rolling loss is zero and the rolling gain is a positive number, the RSI
  is exactly 100: the division by the zero loss gives an infinite ratio, which the last
  line turns into 100, and nothing is raised.
\<close>

theorem rsi_range_and_saturation:
  assumes "i < length closes"
  shows "(calculate_rsi closes p ! i \<noteq> NaN \<longrightarrow>
            (\<exists>v. calculate_rsi closes p ! i = Fin v \<and> 0 \<le> v \<and> v \<le> 100))
     \<and> (is_zero (rsi_loss closes p ! i) \<and> (\<exists>g. rsi_gain closes p ! i = Fin g \<and> 0 < g) \<longrightarrow>
            calculate_rsi closes p ! i = Fin 100)"
  using assms
proof (cases rule: rsi_position_cases [of i closes p])
  case warmup
  then show ?thesis by simp
next
  case (no_loss g)
  then show ?thesis by auto
next
  case (regular g l)
  then show ?thesis
    using rsi_regular_bounds [of g l] by auto
qed

text \<open>
  C10. Wherever the rolling gain and the rolling loss are both zero the RSI is NaN
  (zero divided by zero), not 100 and not any other number; so a defined RSI at
  position \<open>i\<close> needs a day \<open>j\<close> in the window ending at \<open>i\<close> whose close differs from
  the previous day's.
\<close>

theorem rsi_undefined_without_change:
  assumes "i < length closes"
  shows "(is_zero (rsi_gain closes p ! i) \<and> is_zero (rsi_loss closes p ! i) \<longrightarrow>
            calculate_rsi closes p ! i = NaN)
     \<and> (calculate_rsi closes p ! i \<noteq> NaN \<longrightarrow>
            (\<exists>j. 0 < j \<and> Suc i - p \<le> j \<and> j \<le> i \<and> closes ! j \<noteq> closes ! (j - 1)))"
  using assms
proof (cases rule: rsi_position_cases [of i closes p])
  case warmup
  then show ?thesis by simp
next
  case (no_loss g)
  have "\<exists>j. 0 < j \<and> Suc i - p \<le> j \<and> j \<le> i \<and> closes ! j \<noteq> closes ! (j - 1)" if "g \<noteq> 0"
  proof -
    from that no_loss have "(\<Sum>j = Suc i - p..i. gain_values closes ! j) \<noteq> 0"
      by auto
    then obtain j where j: "j \<in> {Suc i - p..i}" "gain_values closes ! j \<noteq> 0"
      by (rule sum.not_neutral_contains_not_neutral)
    with assms have "j < length closes" by simp
    with j show ?thesis
      using gain_value_change [of j closes] by auto
  qed
  with no_loss show ?thesis by auto
next
  case (regular g l)
  then obtain j where j: "j \<in> {Suc i - p..i}" "loss_values closes ! j \<noteq> 0"
    using sum.not_neutral_contains_not_neutral by blast
  with assms have "j < length closes" by simp
  with j have "\<exists>j. 0 < j \<and> Suc i - p \<le> j \<and> j \<le> i \<and> closes ! j \<noteq> closes ! (j - 1)"
    using loss_value_change [of j closes] by auto
  with regular show ?thesis by auto
qed

theorem rsi_range_and_saturation_witness:
  "rsi_loss [1, 1, 1, 2, 1, 0] 2 ! 3 = NegZero
   \<and> rsi_gain [1, 1, 1, 2, 1, 0] 2 ! 3 = Fin (1 / 2)
   \<and> calculate_rsi [1, 1, 1, 2, 1, 0] 2 ! 3 = Fin 100
   \<and> calculate_rsi [1, 1, 1, 2, 1, 0] 2 ! 4 = Fin 50
   \<and> (\<exists>v. calculate_rsi [1, 1, 1, 2, 1, 0] 2 ! 4 = Fin v \<and> 0 \<le> v \<and> v \<le> 100)"
proof -
  have g: "rsi_gain [1, 1, 1, 2, 1, 0] 2 = [NaN, Fin 0, Fin 0, Fin (1 / 2), Fin (1 / 2), Fin 0]"
    by code_simp
  have l: "rsi_loss [1, 1, 1, 2, 1, 0] 2 = [NaN, NegZero, NegZero, NegZero, Fin (1 / 2), Fin 1]"
    by code_simp
  have r: "calculate_rsi [1, 1, 1, 2, 1, 0] 2 ! 4 = Fin 50"
    by code_simp
  have a: "3 < length [1, 1, 1, 2, 1, 0 :: real]" "4 < length [1, 1, 1, 2, 1, 0 :: real]"
    by simp_all
  have "rsi_gain [1, 1, 1, 2, 1, 0] 2 ! 3 = Fin (1 / 2) \<and> 0 < (1 / 2 :: real)"
    by (simp add: g)
  then have "\<exists>x. rsi_gain [1, 1, 1, 2, 1, 0] 2 ! 3 = Fin x \<and> 0 < x"
    by (rule exI)
  moreover have "is_zero (rsi_loss [1, 1, 1, 2, 1, 0] 2 ! 3)"
    by (simp add: l)
  ultimately have h: "is_zero (rsi_loss [1, 1, 1, 2, 1, 0] 2 ! 3)
      \<and> (\<exists>x. rsi_gain [1, 1, 1, 2, 1, 0] 2 ! 3 = Fin x \<and> 0 < x)"
    by (simp only:)
  with rsi_range_and_saturation [OF a(1), of 2]
  have s3: "calculate_rsi [1, 1, 1, 2, 1, 0] 2 ! 3 = Fin 100"
    by blast
  from r rsi_range_and_saturation [OF a(2), of 2]
  have s4: "\<exists>v. calculate_rsi [1, 1, 1, 2, 1, 0] 2 ! 4 = Fin v \<and> 0 \<le> v \<and> v \<le> 100"
    by simp
  from s3 s4 r show ?thesis
    by (simp add: g l)
qed

theorem rsi_undefined_without_change_witness:
  "rsi_gain [1, 1, 1, 2, 1, 0] 2 ! 2 = Fin 0
   \<and> rsi_loss [1, 1, 1, 2, 1, 0] 2 ! 2 = NegZero
   \<and> calculate_rsi [1, 1, 1, 2, 1, 0] 2 ! 2 = NaN
   \<and> calculate_rsi [1, 1, 1, 2, 1, 0] 2 ! 3 = Fin 100
   \<and> (\<exists>j. 0 < j \<and> 2 \<le> j \<and> j \<le> 3
          \<and> [1, 1, 1, 2, 1, 0 :: real] ! j \<noteq> [1, 1, 1, 2, 1, 0] ! (j - 1))"
proof -
  have g: "rsi_gain [1, 1, 1, 2, 1, 0] 2 = [NaN, Fin 0, Fin 0, Fin (1 / 2), Fin (1 / 2), Fin 0]"
    by code_simp
  have l: "rsi_loss [1, 1, 1, 2, 1, 0] 2 = [NaN, NegZero, NegZero, NegZero, Fin (1 / 2), Fin 1]"
    by code_simp
  have r: "calculate_rsi [1, 1, 1, 2, 1, 0] 2 ! 3 = Fin 100"
    by code_simp
  have a: "2 < length [1, 1, 1, 2, 1, 0 :: real]" "3 < length [1, 1, 1, 2, 1, 0 :: real]"
    by simp_all
  show ?thesis
    using rsi_undefined_without_change [OF a(1), of 2]
      rsi_undefined_without_change [OF a(2), of 2]
    by (simp add: g l r)
qed

section \<open>Bollinger bands\<close>

lemma length_rolling_std: "length (rolling_std p xs) = length xs"
  by (simp add: rolling_std_def)

lemma sum_squares_nonneg: "0 \<le> (\<Sum>x\<leftarrow>obs. (x - (m::real))\<^sup>2)"
  by (rule sum_list_nonneg) auto

lemma std_of_nonneg:
  assumes "std_of minp w = Some sd"
  shows "0 \<le> sd"
proof -
  let ?obs = "observations w"
  let ?m = "sum_list ?obs / real (length ?obs)"
  from assms have n: "1 < length ?obs"
    and sd: "sd = sqrt ((\<Sum>x\<leftarrow>?obs. (x - ?m)\<^sup>2) / real (length ?obs - 1))"
    by (auto simp: std_of_def Let_def split: if_splits)
  have "0 \<le> (\<Sum>x\<leftarrow>?obs. (x - ?m)\<^sup>2) / real (length ?obs - 1)"
    by (intro divide_nonneg_nonneg sum_squares_nonneg) simp
  then show ?thesis
    unfolding sd by simp
qed

lemma rolling_std_nonneg:
  assumes "i < length xs" and "rolling_std p xs ! i = Some sd"
  shows "0 \<le> sd"
proof -
  from assms have "std_of p (window_at p i xs) = Some sd"
    by (simp add: rolling_std_def)
  then show ?thesis by (rule std_of_nonneg)
qed

lemma length_bollinger_upper:
  "length (fst (calculate_bollinger_bands closes w k)) = length closes"
  by (simp add: calculate_bollinger_bands_def Let_def length_rolling_mean length_rolling_std)

lemma length_bollinger_lower:
  "length (snd (calculate_bollinger_bands closes w k)) = length closes"
  by (simp add: calculate_bollinger_bands_def Let_def length_rolling_mean length_rolling_std)

lemma bollinger_upper_nth:
  "i < length closes \<Longrightarrow>
     fst (calculate_bollinger_bands closes w k) ! i =
       add_cell (calculate_sma closes w ! i)
                (scale_cell (rolling_std w (map Some closes) ! i) k)"
  by (simp add: calculate_bollinger_bands_def Let_def calculate_sma_def
      length_rolling_mean length_rolling_std)

lemma bollinger_lower_nth:
  "i < length closes \<Longrightarrow>
     snd (calculate_bollinger_bands closes w k) ! i =
       sub_cell (calculate_sma closes w ! i)
                (scale_cell (rolling_std w (map Some closes) ! i) k)"
  by (simp add: calculate_bollinger_bands_def Let_def calculate_sma_def
      length_rolling_mean length_rolling_std)

text \<open>
  C7. For a non-negative number of standard deviations, the two Bollinger bands are a
  pair of series with one cell per price each, defined at the same positions, and
  wherever they are defined the moving average is defined too and lies between them:
  lower band, then moving average, then upper band.
\<close>

theorem bollinger_bands_enclose_sma:
  assumes "0 \<le> num_std_dev" and "i < length closes"
  shows "length (fst (calculate_bollinger_bands closes window num_std_dev)) = length closes
     \<and> length (snd (calculate_bollinger_bands closes window num_std_dev)) = length closes
     \<and> (fst (calculate_bollinger_bands closes window num_std_dev) ! i = None
          \<longleftrightarrow> snd (calculate_bollinger_bands closes window num_std_dev) ! i = None)
     \<and> (\<forall>u l. fst (calculate_bollinger_bands closes window num_std_dev) ! i = Some u
              \<and> snd (calculate_bollinger_bands closes window num_std_dev) ! i = Some l
          \<longrightarrow> (\<exists>m. calculate_sma closes window ! i = Some m \<and> l \<le> m \<and> m \<le> u))"
proof -
  let ?m = "calculate_sma closes window ! i"
  let ?sd = "rolling_std window (map Some closes) ! i"
  have up: "fst (calculate_bollinger_bands closes window num_std_dev) ! i
              = add_cell ?m (scale_cell ?sd num_std_dev)"
    using assms(2) by (rule bollinger_upper_nth)
  have lo: "snd (calculate_bollinger_bands closes window num_std_dev) ! i
              = sub_cell ?m (scale_cell ?sd num_std_dev)"
    using assms(2) by (rule bollinger_lower_nth)
  have same: "add_cell ?m (scale_cell ?sd num_std_dev) = None
                \<longleftrightarrow> sub_cell ?m (scale_cell ?sd num_std_dev) = None"
    by (simp add: add_cell_def sub_cell_def scale_cell_def split: option.splits)
  have order: "\<exists>m. ?m = Some m \<and> l \<le> m \<and> m \<le> u"
    if u: "add_cell ?m (scale_cell ?sd num_std_dev) = Some u"
      and l: "sub_cell ?m (scale_cell ?sd num_std_dev) = Some l" for u l
  proof -
    from u obtain m sd where m: "?m = Some m" and sd: "?sd = Some sd"
      by (auto simp: add_cell_def scale_cell_def split: option.splits)
    from sd assms(2) have "0 \<le> sd"
      by (intro rolling_std_nonneg [of i "map Some closes" window]) simp_all
    with assms(1) have "0 \<le> sd * num_std_dev" by simp
    moreover from u l m sd have "u = m + sd * num_std_dev" "l = m - sd * num_std_dev"
      by (simp_all add: add_cell_def sub_cell_def scale_cell_def)
    ultimately have "l \<le> m \<and> m \<le> u" by simp
    with m show ?thesis by simp
  qed
  from same order show ?thesis
    unfolding up lo
    by (simp only: length_bollinger_upper length_bollinger_lower) blast
qed

theorem bollinger_bands_enclose_sma_witness:
  "fst (calculate_bollinger_bands [1, 2, 3] 3 2) ! 2 = Some 4
   \<and> snd (calculate_bollinger_bands [1, 2, 3] 3 2) ! 2 = Some 0
   \<and> (\<exists>m. calculate_sma [1, 2, 3] 3 ! 2 = Some m \<and> 0 \<le> m \<and> m \<le> 4)"
proof -
  have m: "calculate_sma [1, 2, 3] 3 ! 2 = Some 2"
    by code_simp
  have sd: "rolling_std 3 [Some 1, Some 2, Some (3 :: real)] ! 2 = Some 1"
    by (simp add: rolling_std_def window_at_def std_of_def observations_def Let_def)
  have a: "(0::real) \<le> 2" "2 < length [1, 2, 3 :: real]" by simp_all
  have up: "fst (calculate_bollinger_bands [1, 2, 3] 3 2) ! 2 = Some 4"
    by (simp add: bollinger_upper_nth m sd add_cell_def scale_cell_def)
  have lo: "snd (calculate_bollinger_bands [1, 2, 3] 3 2) ! 2 = Some 0"
    by (simp add: bollinger_lower_nth m sd sub_cell_def scale_cell_def)
  from bollinger_bands_enclose_sma [OF a, of 3] up lo
  have "\<exists>m. calculate_sma [1, 2, 3] 3 ! 2 = Some m \<and> 0 \<le> m \<and> m \<le> 4"
    by blast
  with up lo show ?thesis by simp
qed

section \<open>The feature and label pipeline\<close>

lemma gain_sum_pos:
  assumes "i < length closes" and "j \<in> {Suc i - p..i}" and "gain_values closes ! j \<noteq> 0"
  shows "(\<Sum>j = Suc i - p..i. gain_values closes ! j) \<noteq> 0"
proof -
  have "\<forall>k\<in>{Suc i - p..i}. 0 \<le> gain_values closes ! k"
    using assms(1) by (simp add: gain_values_nonneg)
  then have "(\<Sum>j = Suc i - p..i. gain_values closes ! j) = 0
               \<longleftrightarrow> (\<forall>k\<in>{Suc i - p..i}. gain_values closes ! k = 0)"
    by (intro sum_nonneg_eq_0_iff) simp_all
  with assms(2,3) show ?thesis by blast
qed

lemma loss_sum_neg:
  assumes "i < length closes" and "j \<in> {Suc i - p..i}" and "loss_values closes ! j \<noteq> 0"
  shows "(\<Sum>j = Suc i - p..i. loss_values closes ! j) \<noteq> 0"
proof -
  have "\<forall>k\<in>{Suc i - p..i}. 0 \<le> - loss_values closes ! k"
    using assms(1) by (simp add: loss_values_nonpos)
  then have "(\<Sum>j = Suc i - p..i. - loss_values closes ! j) = 0
               \<longleftrightarrow> (\<forall>k\<in>{Suc i - p..i}. - loss_values closes ! k = 0)"
    by (intro sum_nonneg_eq_0_iff) simp_all
  with assms(2,3) have "(\<Sum>j = Suc i - p..i. - loss_values closes ! j) \<noteq> 0"
    by auto
  then show ?thesis
    by (simp add: sum_negf)
qed

lemma change_gain_or_loss:
  "j < length closes \<Longrightarrow> 0 < j \<Longrightarrow> closes ! j \<noteq> closes ! (j - 1) \<Longrightarrow>
     gain_values closes ! j \<noteq> 0 \<or> loss_values closes ! j \<noteq> 0"
  by (auto simp: gain_values_def loss_values_def)

lemma rsi_defined_if_change:
  assumes "i < length closes" and "0 < p" and "p \<le> Suc i"
    and "0 < j" and "Suc i - p \<le> j" and "j \<le> i" and "closes ! j \<noteq> closes ! (j - 1)"
  shows "calculate_rsi closes p ! i \<noteq> NaN"
  using assms(1)
proof (cases rule: rsi_position_cases [of i closes p])
  case warmup
  with assms show ?thesis by (simp add: rsi_gain_nth)
next
  case (no_loss g)
  from assms have j: "j \<in> {Suc i - p..i}" "j < length closes" by simp_all
  with no_loss(5) assms(1) have "loss_values closes ! j = 0"
    using loss_sum_neg [of i closes j p] by blast
  with assms j have "gain_values closes ! j \<noteq> 0"
    using change_gain_or_loss [of j closes] by blast
  with j assms(1) have "(\<Sum>j = Suc i - p..i. gain_values closes ! j) \<noteq> 0"
    by (intro gain_sum_pos)
  with no_loss show ?thesis by simp
next
  case (regular g l)
  then show ?thesis by simp
qed

lemma rsi_defined_only_if_change:
  assumes "i < length closes" and "calculate_rsi closes p ! i \<noteq> NaN"
  shows "0 < p \<and> p \<le> Suc i
     \<and> (\<exists>j. 0 < j \<and> Suc i - p \<le> j \<and> j \<le> i \<and> closes ! j \<noteq> closes ! (j - 1))"
  using assms(1)
proof (cases rule: rsi_position_cases [of i closes p])
  case warmup
  with assms show ?thesis by simp
next
  case (no_loss g)
  with assms(2) have "(\<Sum>j = Suc i - p..i. gain_values closes ! j) \<noteq> 0"
    by (auto split: if_splits)
  then obtain j where j: "j \<in> {Suc i - p..i}" "gain_values closes ! j \<noteq> 0"
    by (rule sum.not_neutral_contains_not_neutral)
  with assms have "j < length closes" by simp
  with j no_loss show ?thesis
    using gain_value_change [of j closes] by auto
next
  case (regular g l)
  then obtain j where j: "j \<in> {Suc i - p..i}" "loss_values closes ! j \<noteq> 0"
    using sum.not_neutral_contains_not_neutral by blast
  with assms have "j < length closes" by simp
  with j regular show ?thesis
    using loss_value_change [of j closes] by auto
qed

lemma length_calculate_macd: "length (calculate_macd closes) = length closes"
  by (simp add: calculate_macd_def Let_def length_ewm_mean)

lemma calculate_macd_defined: "i < length closes \<Longrightarrow> calculate_macd closes ! i \<noteq> None"
  by (simp add: calculate_macd_def Let_def length_ewm_mean ewm_mean_nth sub_cell_def)

lemma calculate_sma_defined_iff:
  "i < length closes \<Longrightarrow> calculate_sma closes p ! i \<noteq> None \<longleftrightarrow> 0 < p \<and> p \<le> Suc i"
  by (simp add: calculate_sma_def rolling_mean_nth)

lemma complete_position_iff:
  assumes "i < length closes"
  shows "complete_position closes s l i \<longleftrightarrow>
           0 < s \<and> s \<le> Suc i \<and> 0 < l \<and> l \<le> Suc i \<and> 20 \<le> Suc i
           \<and> (\<exists>j. 0 < j \<and> Suc i - 20 \<le> j \<and> j \<le> i \<and> closes ! j \<noteq> closes ! (j - 1))"
proof -
  have "calculate_rsi closes 20 ! i \<noteq> NaN \<longleftrightarrow>
          20 \<le> Suc i
          \<and> (\<exists>j. 0 < j \<and> Suc i - 20 \<le> j \<and> j \<le> i \<and> closes ! j \<noteq> closes ! (j - 1))"
    using rsi_defined_only_if_change [OF assms, of 20]
      rsi_defined_if_change [OF assms, of 20]
    by (metis zero_less_numeral)
  moreover have "calculate_sma closes s ! i \<noteq> None \<longleftrightarrow> 0 < s \<and> s \<le> Suc i"
    using assms by (rule calculate_sma_defined_iff)
  moreover have "calculate_sma closes l ! i \<noteq> None \<longleftrightarrow> 0 < l \<and> l \<le> Suc i"
    using assms by (rule calculate_sma_defined_iff)
  moreover have "calculate_macd closes ! i \<noteq> None"
    using assms by (rule calculate_macd_defined)
  ultimately show ?thesis
    unfolding complete_position_def by blast
qed


lemma length_target_column: "length (target_column closes) = length closes"
  by (cases closes) (simp_all add: target_column_def np_where_def shift_back_def)

lemma shift_back_nth:
  "i < length xs \<Longrightarrow> shift_back xs ! i = (if Suc i < length xs then xs ! Suc i else None)"
  by (cases xs) (auto simp: shift_back_def nth_append)

lemma length_shift_back: "length (shift_back xs) = length xs"
  by (cases xs) (simp_all add: shift_back_def)

lemma target_column_nth:
  assumes "i < length closes"
  shows "target_column closes ! i =
           (if Suc i < length closes \<and> closes ! i < closes ! Suc i then 1 else 0)"
  using assms
  by (simp add: target_column_def np_where_def length_shift_back shift_back_nth gt_cell_def)

lemma length_stock_rows: "length (stock_rows closes s l) = length closes"
  by (simp add: stock_rows_def Let_def)

lemma stock_rows_nth:
  "i < length closes \<Longrightarrow>
     stock_rows closes s l ! i =
       \<lparr>position = i, SMA_Short = calculate_sma closes s ! i,
        SMA_Long = calculate_sma closes l ! i, RSI = calculate_rsi closes 20 ! i,
        MACD = calculate_macd closes ! i, Target = target_column closes ! i\<rparr>"
  by (simp add: stock_rows_def Let_def)

lemma dropna_stock_rows:
  "dropna (stock_rows closes s l) =
     map (\<lambda>i. stock_rows closes s l ! i)
         (filter (complete_position closes s l) [0..<length closes])"
proof -
  have rows: "stock_rows closes s l = map (\<lambda>i. stock_rows closes s l ! i) [0..<length closes]"
    using map_nth [of "stock_rows closes s l"] by (simp add: length_stock_rows)
  have "filter notna_row (map (\<lambda>i. stock_rows closes s l ! i) [0..<length closes]) =
          map (\<lambda>i. stock_rows closes s l ! i)
              (filter (notna_row \<circ> (\<lambda>i. stock_rows closes s l ! i)) [0..<length closes])"
    by (rule filter_map)
  also have "filter (notna_row \<circ> (\<lambda>i. stock_rows closes s l ! i)) [0..<length closes] =
               filter (complete_position closes s l) [0..<length closes]"
    by (rule filter_cong)
       (simp_all add: stock_rows_nth notna_row_def isna_int_def complete_position_def)
  finally show ?thesis
    unfolding dropna_def using rows by simp
qed

lemma positions_of_features:
  "map fst (features_of (dropna (stock_rows closes s l))) =
     filter (complete_position closes s l) [0..<length closes]"
proof -
  have "map fst (features_of (dropna (stock_rows closes s l))) =
          map (\<lambda>i. position (stock_rows closes s l ! i))
              (filter (complete_position closes s l) [0..<length closes])"
    by (simp add: features_of_def dropna_stock_rows comp_def)
  also have "\<dots> = map (\<lambda>i. i) (filter (complete_position closes s l) [0..<length closes])"
    by (rule map_cong) (simp_all add: stock_rows_nth)
  finally show ?thesis by simp
qed

lemma target_of_rows:
  "target_of (dropna (stock_rows closes s l)) =
     map (\<lambda>i. (i, target_column closes ! i))
         (filter (complete_position closes s l) [0..<length closes])"
proof -
  have "target_of (dropna (stock_rows closes s l)) =
          map (\<lambda>i. (position (stock_rows closes s l ! i), Target (stock_rows closes s l ! i)))
              (filter (complete_position closes s l) [0..<length closes])"
    by (simp add: target_of_def dropna_stock_rows comp_def)
  also have "\<dots> = map (\<lambda>i. (i, target_column closes ! i))
                      (filter (complete_position closes s l) [0..<length closes])"
    by (rule map_cong) (simp_all add: stock_rows_nth)
  finally show ?thesis .
qed

lemma positions_of_target:
  "map fst (target_of (dropna (stock_rows closes s l))) =
     filter (complete_position closes s l) [0..<length closes]"
  by (simp add: target_of_rows comp_def)

text \<open>
  What the guard counts: the rows left by the row filter, which are the positions
  where the four indicators are defined, the final row included. Below 5 the pipeline
  writes the message and calls nothing else; from 5 on it calls the split on exactly
  those rows and then the fit.
\<close>

lemma guard_counts_rows_after_dropna:
  "(length (filter (complete_position closes s l) [0..<length closes]) < 5 \<longrightarrow>
      prediction_model closes s l =
        [St_write ''Not enough data available for prediction within the specified date range.''])
   \<and> (5 \<le> length (filter (complete_position closes s l) [0..<length closes]) \<longrightarrow>
      (\<exists>features target.
          prediction_model closes s l = [Train_test_split features target, Train_model]
          \<and> map fst features = filter (complete_position closes s l) [0..<length closes]
          \<and> map fst target = filter (complete_position closes s l) [0..<length closes]))"
proof -
  let ?rows = "dropna (stock_rows closes s l)"
  let ?k = "length (filter (complete_position closes s l) [0..<length closes])"
  have len: "length (features_of ?rows) = ?k"
    using positions_of_features [of closes s l] by (metis length_map)
  have few: "prediction_model closes s l =
        [St_write ''Not enough data available for prediction within the specified date range.'']"
    if "?k < 5"
    using that len by (simp add: prediction_model_def Let_def)
  have enough: "prediction_model closes s l =
        [Train_test_split (features_of ?rows) (target_of ?rows), Train_model]"
    if "5 \<le> ?k"
    using that len by (simp add: prediction_model_def Let_def fit_after_split_def)
  from few enough positions_of_features [of closes s l] positions_of_target [of closes s l]
  show ?thesis by blast
qed


lemma length_rising_prices: "length rising_prices = 54"
  by (simp add: rising_prices_def)

lemma rising_nth: "i < 54 \<Longrightarrow> rising_prices ! i = real (Suc i)"
  by (simp add: rising_prices_def)

lemma rising_complete:
  assumes "i < 54"
  shows "complete_position rising_prices 10 50 i \<longleftrightarrow> 49 \<le> i"
proof
  assume "complete_position rising_prices 10 50 i"
  with assms show "49 \<le> i"
    by (simp add: complete_position_iff length_rising_prices)
next
  assume i: "49 \<le> i"
  with assms have "rising_prices ! i \<noteq> rising_prices ! (i - 1)"
    by (simp add: rising_nth)
  with i have "\<exists>j. 0 < j \<and> Suc i - 20 \<le> j \<and> j \<le> i
                 \<and> rising_prices ! j \<noteq> rising_prices ! (j - 1)"
    by (intro exI [of _ i]) simp
  with i assms show "complete_position rising_prices 10 50 i"
    by (simp add: complete_position_iff length_rising_prices)
qed

lemma rising_complete_rows:
  "filter (complete_position rising_prices 10 50) [0..<length rising_prices] =
     [49, 50, 51, 52, 53]"
proof -
  have "filter (complete_position rising_prices 10 50) [0..<54] =
          filter (\<lambda>i. 49 \<le> i) [0..<54]"
    by (rule filter_cong) (simp_all add: rising_complete)
  also have "\<dots> = [49, 50, 51, 52, 53]"
    by code_simp
  finally show ?thesis by (simp only: length_rising_prices)
qed

lemma rising_labelled_rows:
  "filter (labelled_complete_position rising_prices 10 50) [0..<length rising_prices] =
     [49, 50, 51, 52]"
proof -
  have "filter (labelled_complete_position rising_prices 10 50) [0..<54] =
          filter (\<lambda>i. 49 \<le> i \<and> i < 53) [0..<54]"
    by (rule filter_cong)
       (auto simp: labelled_complete_position_def rising_complete length_rising_prices)
  also have "\<dots> = [49, 50, 51, 52]"
    by code_simp
  finally show ?thesis by (simp only: length_rising_prices)
qed

lemma rising_split_invoked:
  "prediction_model rising_prices 10 50 =
     [Train_test_split (features_of (dropna (stock_rows rising_prices 10 50)))
                       (target_of (dropna (stock_rows rising_prices 10 50))),
      Train_model]"
proof -
  have "map fst (features_of (dropna (stock_rows rising_prices 10 50))) = [49, 50, 51, 52, 53]"
    by (simp only: positions_of_features rising_complete_rows)
  then have "length (features_of (dropna (stock_rows rising_prices 10 50))) = 5"
    using length_map [of fst "features_of (dropna (stock_rows rising_prices 10 50))"] by simp
  then show ?thesis
    by (simp add: prediction_model_def Let_def fit_after_split_def)
qed

lemma short_series_message:
  "prediction_model [1, 2, 3] 10 50 =
     [St_write ''Not enough data available for prediction within the specified date range.'']"
proof -
  have "length (filter (complete_position [1, 2, 3] 10 50) [0..<length [1, 2, 3 :: real]])
          \<le> length [0..<length [1, 2, 3 :: real]]"
    by (rule length_filter_le)
  then have "length (filter (complete_position [1, 2, 3] 10 50) [0..<length [1, 2, 3 :: real]]) < 5"
    by simp
  with guard_counts_rows_after_dropna [of "[1, 2, 3]" 10 50] show ?thesis
    by blast
qed

text \<open>
  C4. On the 54 rising closes with windows of 10 and 50 days, the rows with complete
  indicator data and a label are positions 49 to 52: four rows, fewer than 5. The
  pipeline does not signal insufficient data there: the row filter also keeps the final
  row, whose label is the integer 0, the guard counts five rows, and the split and the
  fit are called on positions 49 to 53.
\<close>

theorem split_invoked_with_four_labelled_rows:
  "filter (labelled_complete_position rising_prices 10 50) [0..<length rising_prices] =
     [49, 50, 51, 52]
   \<and> length (filter (labelled_complete_position rising_prices 10 50)
                      [0..<length rising_prices]) < 5
   \<and> map fst (features_of (dropna (stock_rows rising_prices 10 50))) = [49, 50, 51, 52, 53]
   \<and> prediction_model rising_prices 10 50 =
     [Train_test_split (features_of (dropna (stock_rows rising_prices 10 50)))
                       (target_of (dropna (stock_rows rising_prices 10 50))),
      Train_model]"
proof -
  have rows: "filter (labelled_complete_position rising_prices 10 50)
                [0..<length rising_prices] = [49, 50, 51, 52]"
    by (rule rising_labelled_rows)
  then have few: "length (filter (labelled_complete_position rising_prices 10 50)
                      [0..<length rising_prices]) < 5"
    by simp
  have kept: "map fst (features_of (dropna (stock_rows rising_prices 10 50))) =
                [49, 50, 51, 52, 53]"
    by (simp only: positions_of_features rising_complete_rows)
  from rows few kept rising_split_invoked show ?thesis
    by (intro conjI)
qed

text \<open>
  C1. On the 54 rising closes with windows of 10 and 50 days the complete rows are
  positions 49 to 53. Rows 49 to 52 carry label 1 (the next close is higher). The final
  row, 53, has no next row; its label is 0, not a missing value, so the row filter
  keeps it and it reaches the split inside the feature matrix and the label vector.
\<close>

theorem final_row_kept_with_label_zero:
  "target_of (dropna (stock_rows rising_prices 10 50)) =
     [(49, 1), (50, 1), (51, 1), (52, 1), (53, 0)]
   \<and> map fst (features_of (dropna (stock_rows rising_prices 10 50))) =
     [49, 50, 51, 52, 53]
   \<and> prediction_model rising_prices 10 50 =
     [Train_test_split (features_of (dropna (stock_rows rising_prices 10 50)))
                       (target_of (dropna (stock_rows rising_prices 10 50))),
      Train_model]"
proof -
  let ?closes = rising_prices
  have t: "target_column ?closes ! 49 = 1" "target_column ?closes ! 50 = 1"
    "target_column ?closes ! 51 = 1" "target_column ?closes ! 52 = 1"
    "target_column ?closes ! 53 = 0"
    by (simp_all add: target_column_nth length_rising_prices rising_nth)
  have tgt: "target_of (dropna (stock_rows ?closes 10 50)) =
     [(49, 1), (50, 1), (51, 1), (52, 1), (53, 0)]"
    by (simp only: target_of_rows rising_complete_rows list.map t)
  have pos: "map fst (features_of (dropna (stock_rows ?closes 10 50))) = [49, 50, 51, 52, 53]"
    by (simp only: positions_of_features rising_complete_rows)
  then have "length (features_of (dropna (stock_rows ?closes 10 50))) = 5"
    using length_map [of fst "features_of (dropna (stock_rows ?closes 10 50))"] by simp
  then have run: "prediction_model ?closes 10 50 =
     [Train_test_split (features_of (dropna (stock_rows ?closes 10 50)))
                       (target_of (dropna (stock_rows ?closes 10 50))),
      Train_model]"
    by (simp add: prediction_model_def Let_def fit_after_split_def)
  from tgt pos run show ?thesis by (intro conjI)
qed

end
